theory Spec2Isabelle
  imports Main
begin

section \<open>The select widget: data\<close>

text \<open>
  The class \<open>VscodeSelectBase\<close> of \<open>vscode-select/includes/vscode-select-base.ts\<close> is
  embedded as a record of its fields together with the three parts of the browser it
  writes to: the click listener it registers on \<open>window\<close>, the custom events it
  dispatches, and the console. Every method becomes a function from the state to the
  new state. A JavaScript \<open>TypeError\<close> (reading a property of \<open>undefined\<close>) is a value:
  a handler returns either the new state or the error with the state as it was when
  the exception left the handler.
\<close>

datatype error = TypeError

text \<open>
  Modelled from the spec: the declarations of the types \<open>Option\<close> and \<open>InternalOption\<close>
  (\<open>includes/types.ts\<close> is not among the sources). The fields are the ones the class
  reads and writes and the spec's Option Record lists: \<open>label\<close>, \<open>value\<close>,
  \<open>description\<close>, \<open>selected\<close>, and for the internal record the \<open>index\<close>.
\<close>

record SelectOption =
  label :: string
  optValue :: string
  description :: string
  selected :: bool

record InternalOption = SelectOption +
  index :: int

record OptionListStat =
  statSelectedIndexes :: "int list"
  statValues :: "string list"

text \<open>The \<open>detail\<close> of a \<open>vsc-change\<close> event, single-select and multi-select.\<close>

datatype ChangeDetail =
  SingleDetail int string
  | MultiDetail "int list" "string list"

record CustomEvent =
  eventType :: string
  detail :: ChangeDetail

text \<open>
  A keyboard event: its key, and whether \<open>stopPropagation\<close> and \<open>preventDefault\<close>
  have been called on it.
\<close>

record KeyboardEvent =
  key :: string
  propagationStopped :: bool
  defaultPrevented :: bool

text \<open>The targets on the composed path of a click: the widget itself, or anything else.\<close>

datatype EventTarget = ThisElement | OtherTarget nat

text \<open>
  A node assigned to the main slot: a \<open>vscode-option\<close> element with the properties
  ingestion reads, or any other node.
\<close>

datatype Node =
  VscodeOptionElement string string bool string bool
  | OtherNode

record VscodeSelectBase =
  ariaExpanded :: string
  combobox :: bool
  focused :: bool
  activeIndex :: int
  filterMethod :: string
  filterPattern :: string
  selectedIndex :: int
  selectedIndexes :: "int list"
  showDropdown :: bool
  options :: "InternalOption list"
  curValue :: string
  curValues :: "string list"
  multiple :: bool
  windowClickListener :: bool
  dispatched :: "CustomEvent list"
  consoleWarnings :: "string list"

type_synonym result = "(error \<times> VscodeSelectBase) + VscodeSelectBase"

text \<open>
  The field initialisers of the class. \<open>_multiple\<close> is \<open>false\<close> in the base class and
  set by the multi-select subclass, so it is a parameter here.
\<close>

definition init :: "bool \<Rightarrow> VscodeSelectBase" where
  "init m =
     \<lparr> ariaExpanded = ''false'', combobox = False, focused = False, activeIndex = - 1,
       filterMethod = ''fuzzy'', filterPattern = [], selectedIndex = - 1,
       selectedIndexes = [], showDropdown = False, options = [], curValue = [],
       curValues = [], multiple = m, windowClickListener = False, dispatched = [],
       consoleWarnings = [] \<rparr>"

section \<open>JavaScript primitives\<close>

text \<open>\<open>xs[i]\<close>: \<open>undefined\<close> (here \<open>None\<close>) outside \<open>0 .. length - 1\<close>.\<close>

definition jsIndex :: "'a list \<Rightarrow> int \<Rightarrow> 'a option" where
  "jsIndex xs i = (if 0 \<le> i \<and> i < int (length xs) then Some (xs ! nat i) else None)"

text \<open>\<open>Array.prototype.findIndex\<close>: the first position that satisfies the test, or -1.\<close>

fun findIndexFrom :: "('a \<Rightarrow> bool) \<Rightarrow> 'a list \<Rightarrow> int \<Rightarrow> int" where
  "findIndexFrom P [] i = - 1"
| "findIndexFrom P (x # xs) i = (if P x then i else findIndexFrom P xs (i + 1))"

definition findIndex :: "('a \<Rightarrow> bool) \<Rightarrow> 'a list \<Rightarrow> int" where
  "findIndex P xs = findIndexFrom P xs 0"

definition thenDo :: "result \<Rightarrow> (VscodeSelectBase \<Rightarrow> result) \<Rightarrow> result" where
  "thenDo r f = (case r of Inl e \<Rightarrow> Inl e | Inr s \<Rightarrow> f s)"

definition stateOf :: "result \<Rightarrow> VscodeSelectBase" where
  "stateOf r = (case r of Inl e \<Rightarrow> snd e | Inr s \<Rightarrow> s)"

section \<open>Properties: \<open>filter\<close> and \<open>options\<close>\<close>

definition validValues :: "string list" where
  "validValues = [''contains'', ''fuzzy'', ''startsWith'', ''startsWithPerTerm'']"

definition invalidFilterWarning :: "string \<Rightarrow> string" where
  "invalidFilterWarning val =
     ''[VSCode Webview Elements] Invalid filter: '' @ [CHR 0x22] @ val @ [CHR 0x22]
     @ '', fallback to default. Valid values are: '' @ [CHR 0x22] @ ''contains''
     @ [CHR 0x22] @ '', '' @ [CHR 0x22] @ ''fuzzy'' @ [CHR 0x22] @ '', '' @ [CHR 0x22]
     @ ''startsWith'' @ [CHR 0x22] @ '', '' @ [CHR 0x22] @ ''startsWithPerm''
     @ [CHR 0x22] @ ''.''"

definition setFilter :: "string \<Rightarrow> VscodeSelectBase \<Rightarrow> VscodeSelectBase" where
  "setFilter val s =
     (if val \<in> set validValues then s\<lparr>filterMethod := val\<rparr>
      else s\<lparr>filterMethod := ''fuzzy'',
             consoleWarnings := consoleWarnings s @ [invalidFilterWarning val]\<rparr>)"

definition getFilter :: "VscodeSelectBase \<Rightarrow> string" where
  "getFilter s = filterMethod s"

fun withIndex :: "SelectOption list \<Rightarrow> int \<Rightarrow> InternalOption list" where
  "withIndex [] i = []"
| "withIndex (op # ops) i =
     \<lparr>label = label op, optValue = optValue op, description = description op,
      selected = selected op, index = i\<rparr> # withIndex ops (i + 1)"

definition setOptions :: "SelectOption list \<Rightarrow> VscodeSelectBase \<Rightarrow> VscodeSelectBase" where
  "setOptions opts s = s\<lparr>options := withIndex opts 0\<rparr>"

definition getOptions :: "VscodeSelectBase \<Rightarrow> SelectOption list" where
  "getOptions s =
     map (\<lambda>op. \<lparr>label = label op, optValue = optValue op, description = description op,
                selected = selected op\<rparr>) (options s)"

section \<open>Ingestion of the slotted option elements\<close>

text \<open>
  The body of the \<open>forEach\<close> of \<open>_addOptionsFromSlottedElements\<close>, over the list of
  assigned nodes, with the three variables the loop updates: \<open>options\<close>,
  \<open>currentIndex\<close> (\<open>push\<close> returns the new length) and \<open>optionsListStat\<close>.
\<close>

fun forEachNode ::
  "Node list \<Rightarrow> InternalOption list \<times> int \<times> OptionListStat
     \<Rightarrow> InternalOption list \<times> int \<times> OptionListStat" where
  "forEachNode [] acc = acc"
| "forEachNode (OtherNode # nodes) acc = forEachNode nodes acc"
| "forEachNode (VscodeOptionElement innerText elValue hasValue descr sel # nodes)
       (opts, currentIndex, stat) =
     (let v = (if hasValue then elValue else innerText);
          op = \<lparr>label = innerText, optValue = v, description = descr, selected = sel,
                index = currentIndex\<rparr>;
          opts' = opts @ [op];
          currentIndex' = int (length opts');
          stat' = (if sel
                   then stat\<lparr>statSelectedIndexes :=
                                statSelectedIndexes stat @ [int (length opts') - 1],
                              statValues := statValues stat @ [v]\<rparr>
                   else stat)
      in forEachNode nodes (opts', currentIndex', stat'))"

definition addOptionsFromSlottedElements ::
  "Node list \<Rightarrow> VscodeSelectBase \<Rightarrow> OptionListStat \<times> VscodeSelectBase" where
  "addOptionsFromSlottedElements nodes s =
     (case forEachNode nodes ([], 0, \<lparr>statSelectedIndexes = [], statValues = []\<rparr>) of
        (opts, currentIndex, stat) \<Rightarrow> (stat, s\<lparr>options := opts\<rparr>))"

definition onSlotChange :: "Node list \<Rightarrow> VscodeSelectBase \<Rightarrow> VscodeSelectBase" where
  "onSlotChange nodes s =
     (case addOptionsFromSlottedElements nodes s of
        (stat, s1) \<Rightarrow>
          if length (statSelectedIndexes stat) > 0
          then s1\<lparr>selectedIndex := statSelectedIndexes stat ! 0,
                  selectedIndexes := statSelectedIndexes stat\<rparr>
          else s1)"

section \<open>Dropdown, change event, mouse\<close>

text \<open>
  \<open>addEventListener\<close> with a listener that is already registered does nothing, and so
  does \<open>removeEventListener\<close> with one that is not: the registration of the one bound
  function \<open>_onClickOutsideBound\<close> on \<open>window\<close> is a boolean.
\<close>

definition toggleDropdown :: "bool \<Rightarrow> VscodeSelectBase \<Rightarrow> VscodeSelectBase" where
  "toggleDropdown visible s =
     (let s1 = s\<lparr>showDropdown := visible,
                  ariaExpanded := (if visible then ''true'' else ''false'')\<rparr>;
          s2 = (if visible \<and> \<not> multiple s1 then s1\<lparr>activeIndex := selectedIndex s1\<rparr>
                else s1)
      in if visible then s2\<lparr>windowClickListener := True\<rparr>
         else s2\<lparr>windowClickListener := False\<rparr>)"

definition dispatchChangeEvent :: "VscodeSelectBase \<Rightarrow> VscodeSelectBase" where
  "dispatchChangeEvent s =
     (if \<not> multiple s
      then s\<lparr>dispatched := dispatched s @
               [\<lparr>eventType = ''vsc-change'',
                 detail = SingleDetail (selectedIndex s) (curValue s)\<rparr>]\<rparr>
      else s\<lparr>dispatched := dispatched s @
               [\<lparr>eventType = ''vsc-change'',
                 detail = MultiDetail (selectedIndexes s) (curValues s)\<rparr>]\<rparr>)"

definition onFaceClick :: "VscodeSelectBase \<Rightarrow> VscodeSelectBase" where
  "onFaceClick s =
     (let s1 = toggleDropdown (\<not> showDropdown s) s
      in if multiple s1 then s1\<lparr>activeIndex := - 1\<rparr> else s1)"

definition onClickOutside :: "EventTarget list \<Rightarrow> VscodeSelectBase \<Rightarrow> VscodeSelectBase" where
  "onClickOutside path s =
     (let found = findIndex (\<lambda>et. et = ThisElement) path
      in if found = - 1
         then (toggleDropdown False s)\<lparr>windowClickListener := False\<rparr>
         else s)"

definition toggleComboboxDropdown :: "VscodeSelectBase \<Rightarrow> VscodeSelectBase" where
  "toggleComboboxDropdown s =
     (let s1 = toggleDropdown (\<not> showDropdown s) (s\<lparr>filterPattern := []\<rparr>)
      in if multiple s1 then s1\<lparr>activeIndex := - 1\<rparr> else s1)"

definition onComboboxButtonClick :: "VscodeSelectBase \<Rightarrow> VscodeSelectBase" where
  "onComboboxButtonClick s = toggleComboboxDropdown s"

definition onComboboxButtonKeyDown :: "string \<Rightarrow> VscodeSelectBase \<Rightarrow> VscodeSelectBase" where
  "onComboboxButtonKeyDown k s = (if k = ''Enter'' then toggleComboboxDropdown s else s)"

text \<open>
  \<open>_onOptionMouseOver\<close>: whether the target matches \<open>.option\<close>, and the number in its
  \<open>data-index\<close>.
\<close>

definition onOptionMouseOver :: "bool \<Rightarrow> int \<Rightarrow> VscodeSelectBase \<Rightarrow> VscodeSelectBase" where
  "onOptionMouseOver matchesOption dataIndex s =
     (if \<not> matchesOption then s else s\<lparr>activeIndex := dataIndex\<rparr>)"

definition onComboboxInputInput :: "string \<Rightarrow> VscodeSelectBase \<Rightarrow> VscodeSelectBase" where
  "onComboboxInputInput v s = toggleDropdown True (s\<lparr>filterPattern := v\<rparr>)"

definition onComponentFocus :: "VscodeSelectBase \<Rightarrow> VscodeSelectBase" where
  "onComponentFocus s = s\<lparr>focused := True\<rparr>"

definition onComponentBlur :: "VscodeSelectBase \<Rightarrow> VscodeSelectBase" where
  "onComponentBlur s = s\<lparr>focused := False\<rparr>"

section \<open>Keyboard\<close>

definition onEnterKeyDown :: "VscodeSelectBase \<Rightarrow> result" where
  "onEnterKeyDown s =
     (let visible = \<not> showDropdown s;
          s1 = toggleDropdown visible s;
          r = (if \<not> multiple s1 \<and> \<not> visible \<and> selectedIndex s1 \<noteq> activeIndex s1
               then (let s2 = s1\<lparr>selectedIndex := activeIndex s1\<rparr>
                     in case jsIndex (options s2) (selectedIndex s2) of
                          None \<Rightarrow> Inl (TypeError, s2)
                        | Some op \<Rightarrow> Inr (dispatchChangeEvent (s2\<lparr>curValue := optValue op\<rparr>)))
               else Inr s1)
      in thenDo r (\<lambda>s3. Inr (if multiple s3 \<and> visible then s3\<lparr>activeIndex := 0\<rparr> else s3)))"

text \<open>The \<open>forEach\<close> of \<open>_onSpaceKeyDown\<close>, pushing onto \<open>_selectedIndexes\<close>.\<close>

fun pushSelected :: "InternalOption list \<Rightarrow> int list \<Rightarrow> int list" where
  "pushSelected [] acc = acc"
| "pushSelected (op # ops) acc =
     pushSelected ops (if selected op then acc @ [index op] else acc)"

definition onSpaceKeyDown :: "VscodeSelectBase \<Rightarrow> result" where
  "onSpaceKeyDown s =
     (if \<not> showDropdown s then Inr (toggleDropdown True s)
      else if showDropdown s \<and> multiple s \<and> activeIndex s > - 1
      then (case jsIndex (options s) (activeIndex s) of
              None \<Rightarrow> Inl (TypeError, s)
            | Some op \<Rightarrow>
                (let opts' = (options s)[nat (activeIndex s) := op\<lparr>selected := \<not> selected op\<rparr>];
                     s1 = s\<lparr>options := opts', selectedIndexes := []\<rparr>
                 in Inr (s1\<lparr>selectedIndexes := pushSelected (options s1) (selectedIndexes s1)\<rparr>)))
      else Inr s)"

definition onArrowUpKeyDown :: "VscodeSelectBase \<Rightarrow> VscodeSelectBase" where
  "onArrowUpKeyDown s =
     (if showDropdown s
      then (if activeIndex s \<le> 0 then s else s\<lparr>activeIndex := activeIndex s - 1\<rparr>)
      else s)"

definition onArrowDownKeyDown :: "VscodeSelectBase \<Rightarrow> VscodeSelectBase" where
  "onArrowDownKeyDown s =
     (if showDropdown s
      then (if activeIndex s \<ge> int (length (options s)) - 1 then s
            else s\<lparr>activeIndex := activeIndex s + 1\<rparr>)
      else s)"

text \<open>
  \<open>_onComponentKeyDown\<close> returns the event, with what it called on it, and the result
  of the five tests on the key, run in the order of the source.
\<close>

definition onComponentKeyDown :: "KeyboardEvent \<Rightarrow> VscodeSelectBase \<Rightarrow> KeyboardEvent \<times> result" where
  "onComponentKeyDown event s =
     (let event' = (if key event \<in> set ['' '', ''ArrowUp'', ''ArrowDown'', ''Escape'']
                    then event\<lparr>propagationStopped := True, defaultPrevented := True\<rparr>
                    else event);
          r1 = (if key event = ''Enter'' then onEnterKeyDown s else Inr s);
          r2 = thenDo r1 (\<lambda>s. if key event = '' '' then onSpaceKeyDown s else Inr s);
          r3 = thenDo r2 (\<lambda>s. if key event = ''Escape''
                               then Inr (s\<lparr>showDropdown := False\<rparr>) else Inr s);
          r4 = thenDo r3 (\<lambda>s. if key event = ''ArrowUp''
                               then Inr (onArrowUpKeyDown s) else Inr s);
          r5 = thenDo r4 (\<lambda>s. if key event = ''ArrowDown''
                               then Inr (onArrowDownKeyDown s) else Inr s)
      in (event', r5))"

definition keydown :: "string \<Rightarrow> KeyboardEvent" where
  "keydown k = \<lparr>key = k, propagationStopped = False, defaultPrevented = False\<rparr>"

section \<open>Events and runs\<close>

text \<open>
  What can happen to the widget. A click on \<open>window\<close> reaches \<open>_onClickOutside\<close> only
  while the listener is registered.
\<close>

datatype Event =
  FaceClick
  | KeyDown string
  | WindowClick "EventTarget list"
  | OptionMouseOver bool int
  | SlotChange "Node list"
  | SetOptions "SelectOption list"
  | SetFilter string
  | ComboboxButtonClick
  | ComboboxButtonKeyDown string
  | ComboboxInputInput string
  | Focus
  | Blur

fun step :: "Event \<Rightarrow> VscodeSelectBase \<Rightarrow> result" where
  "step FaceClick s = Inr (onFaceClick s)"
| "step (KeyDown k) s = snd (onComponentKeyDown (keydown k) s)"
| "step (WindowClick path) s =
     Inr (if windowClickListener s then onClickOutside path s else s)"
| "step (OptionMouseOver m i) s = Inr (onOptionMouseOver m i s)"
| "step (SlotChange nodes) s = Inr (onSlotChange nodes s)"
| "step (SetOptions opts) s = Inr (setOptions opts s)"
| "step (SetFilter val) s = Inr (setFilter val s)"
| "step ComboboxButtonClick s = Inr (onComboboxButtonClick s)"
| "step (ComboboxButtonKeyDown k) s = Inr (onComboboxButtonKeyDown k s)"
| "step (ComboboxInputInput v) s = Inr (onComboboxInputInput v s)"
| "step Focus s = Inr (onComponentFocus s)"
| "step Blur s = Inr (onComponentBlur s)"

text \<open>A run of events, up to the first exception.\<close>

fun run :: "Event list \<Rightarrow> VscodeSelectBase \<Rightarrow> result" where
  "run [] s = Inr s"
| "run (e # es) s = (case step e s of Inl x \<Rightarrow> Inl x | Inr s' \<Rightarrow> run es s')"

section \<open>Predicates of the specification and example data\<close>

text \<open>
  The Option Record invariant of the specification: the \<open>index\<close> of every record is
  its position in the list.
\<close>

definition wellIndexed :: "InternalOption list \<Rightarrow> bool" where
  "wellIndexed opts = (map index opts = map int [0..<length opts])"

text \<open>The ascending sequence of the positions of the records whose flag is set.\<close>

definition selectedPositions :: "InternalOption list \<Rightarrow> int list" where
  "selectedPositions opts = map int (filter (\<lambda>k. selected (opts ! k)) [0..<length opts])"

text \<open>
  The Selection State invariant of the specification: every index it holds is the
  position of an existing record (-1 is the single-select "none").
\<close>

definition selectionValid :: "VscodeSelectBase \<Rightarrow> bool" where
  "selectionValid s =
     (if multiple s
      then list_all (\<lambda>i. 0 \<le> i \<and> i < int (length (options s))) (selectedIndexes s)
      else selectedIndex s = - 1
           \<or> (0 \<le> selectedIndex s \<and> selectedIndex s < int (length (options s))))"

text \<open>
  The records that ingestion builds from a list of nodes, the first one with index
  \<open>i\<close>: what the loop of \<open>_addOptionsFromSlottedElements\<close> is shown to compute.
\<close>

fun nodeOptions :: "Node list \<Rightarrow> int \<Rightarrow> InternalOption list" where
  "nodeOptions [] i = []"
| "nodeOptions (OtherNode # nodes) i = nodeOptions nodes i"
| "nodeOptions (VscodeOptionElement innerText elValue hasValue descr sel # nodes) i =
     \<lparr>label = innerText, optValue = (if hasValue then elValue else innerText),
      description = descr, selected = sel, index = i\<rparr> # nodeOptions nodes (i + 1)"

text \<open>The three options of the specification's single-select scenario.\<close>

definition optionsABC :: "SelectOption list" where
  "optionsABC =
     [\<lparr>label = ''A'', optValue = ''a'', description = [], selected = False\<rparr>,
      \<lparr>label = ''B'', optValue = ''b'', description = [], selected = False\<rparr>,
      \<lparr>label = ''C'', optValue = ''c'', description = [], selected = False\<rparr>]"

definition internalABC :: "InternalOption list" where
  "internalABC =
     [\<lparr>label = ''A'', optValue = ''a'', description = [], selected = False, index = 0\<rparr>,
      \<lparr>label = ''B'', optValue = ''b'', description = [], selected = False, index = 1\<rparr>,
      \<lparr>label = ''C'', optValue = ''c'', description = [], selected = False, index = 2\<rparr>]"

text \<open>An open dropdown over the three options, in single-select and multi-select mode.\<close>

definition openABC :: "bool \<Rightarrow> int \<Rightarrow> VscodeSelectBase" where
  "openABC m a =
     (init m)\<lparr>options := internalABC, showDropdown := True, ariaExpanded := ''true'',
              windowClickListener := True, activeIndex := a\<rparr>"

text \<open>Slotted elements: option A, and option B with and without the selected flag.\<close>

definition nodeA :: Node where
  "nodeA = VscodeOptionElement ''A'' ''a'' True [] False"

definition nodeB :: "bool \<Rightarrow> Node" where
  "nodeB sel = VscodeOptionElement ''B'' ''b'' True [] sel"

section \<open>Lemmas about the handlers\<close>

lemmas key_defs = onComponentKeyDown_def keydown_def thenDo_def onEnterKeyDown_def
  onSpaceKeyDown_def onArrowUpKeyDown_def onArrowDownKeyDown_def toggleDropdown_def
  dispatchChangeEvent_def jsIndex_def Let_def

lemmas example_defs = openABC_def internalABC_def optionsABC_def init_def nodeA_def
  nodeB_def setOptions_def

lemma arrow_down_step:
  "showDropdown s \<Longrightarrow> step (KeyDown ''ArrowDown'') s =
     Inr (if activeIndex s < int (length (options s)) - 1
          then s\<lparr>activeIndex := activeIndex s + 1\<rparr> else s)"
  by (simp add: key_defs)

lemma arrow_down_run:
  "showDropdown s \<Longrightarrow> run (replicate k (KeyDown ''ArrowDown'')) s =
     Inr (if activeIndex s \<ge> int (length (options s)) - 1 then s
          else s\<lparr>activeIndex := min (activeIndex s + int k) (int (length (options s)) - 1)\<rparr>)"
proof (induction k arbitrary: s)
  case 0
  then show ?case by simp
next
  case (Suc k)
  show ?case
  proof (cases "activeIndex s < int (length (options s)) - 1")
    case True
    let ?s1 = "s\<lparr>activeIndex := activeIndex s + 1\<rparr>"
    have st: "step (KeyDown ''ArrowDown'') s = Inr ?s1"
      using arrow_down_step [OF Suc.prems] True by simp
    have "showDropdown ?s1" using Suc.prems by simp
    from Suc.IH [OF this] show ?thesis
      using True st by (auto simp: min_def)
  next
    case False
    have st: "step (KeyDown ''ArrowDown'') s = Inr s"
      using arrow_down_step [OF Suc.prems] False by simp
    from Suc.IH [OF Suc.prems] show ?thesis
      using False st by simp
  qed
qed

lemma pushSelected_eq: "pushSelected ops acc = acc @ map index (filter selected ops)"
  by (induction ops arbitrary: acc) auto

lemma filter_by_position:
  "filter P xs = map (\<lambda>k. xs ! k) (filter (\<lambda>k. P (xs ! k)) [0..<length xs])"
proof -
  have "filter P xs = filter P (map (\<lambda>k. xs ! k) [0..<length xs])"
    by (simp add: map_nth)
  also have "\<dots> = map (\<lambda>k. xs ! k) (filter (\<lambda>k. P (xs ! k)) [0..<length xs])"
    by (simp add: filter_map comp_def)
  finally show ?thesis .
qed

lemma wellIndexed_nth:
  assumes w: "wellIndexed opts" and k: "k < length opts"
  shows "index (opts ! k) = int k"
proof -
  have "index (opts ! k) = map index opts ! k" using k by simp
  also have "\<dots> = map int [0..<length opts] ! k" using w by (simp add: wellIndexed_def)
  also have "\<dots> = int k" using k by simp
  finally show ?thesis .
qed

lemma wellIndexed_selected:
  assumes "wellIndexed opts"
  shows "map index (filter selected opts) = selectedPositions opts"
proof -
  have "map index (filter selected opts)
        = map (\<lambda>k. index (opts ! k)) (filter (\<lambda>k. selected (opts ! k)) [0..<length opts])"
    by (subst filter_by_position) (simp add: comp_def)
  also have "\<dots> = map int (filter (\<lambda>k. selected (opts ! k)) [0..<length opts])"
    by (rule map_cong) (auto simp: wellIndexed_nth [OF assms])
  finally show ?thesis by (simp add: selectedPositions_def)
qed

lemma wellIndexed_update:
  "wellIndexed opts \<Longrightarrow> wellIndexed (opts[i := (opts ! i)\<lparr>selected := b\<rparr>])"
  by (simp add: wellIndexed_def map_update)
     (metis length_map list_update_id nth_map list_update_beyond not_le_imp_less)

lemma selectedPositions_sorted:
  "sorted (selectedPositions xs) \<and> distinct (selectedPositions xs)"
  by (simp add: selectedPositions_def sorted_map distinct_map inj_on_def sorted_wrt_filter
      flip: sorted_wrt_map)

section \<open>Enter in single-select mode\<close>

text \<open>
  Enter on an open single-select dropdown whose Active Index equals the selected
  index, or is the position of an existing option record: the dropdown closes and the
  outside-click listener is removed; if the two indexes differ, the selected index
  becomes the Active Index, the stored value becomes the value of the record at that
  position, and one \<open>vsc-change\<close> event with detail \<open>{selectedIndex, value}\<close> is
  dispatched; if they are equal, nothing is dispatched and the selection is untouched.
  For the options A, B, C with no prior selection, opening by a face click, ArrowDown
  twice, then Enter dispatches exactly \<open>{selectedIndex: 1, value: "b"}\<close> and leaves
  the dropdown closed.
\<close>

theorem enter_commits_single_select:
  "(showDropdown s \<and> \<not> multiple s
      \<and> (activeIndex s = selectedIndex s
          \<or> (0 \<le> activeIndex s \<and> activeIndex s < int (length (options s))))
    \<longrightarrow> step (KeyDown ''Enter'') s =
     Inr (if activeIndex s \<noteq> selectedIndex s
          then s\<lparr>showDropdown := False, ariaExpanded := ''false'',
                 windowClickListener := False, selectedIndex := activeIndex s,
                 curValue := optValue (options s ! nat (activeIndex s)),
                 dispatched := dispatched s @
                   [\<lparr>eventType = ''vsc-change'',
                     detail = SingleDetail (activeIndex s)
                                (optValue (options s ! nat (activeIndex s)))\<rparr>]\<rparr>
          else s\<lparr>showDropdown := False, ariaExpanded := ''false'',
                 windowClickListener := False\<rparr>))
   \<and> run [SetOptions optionsABC, FaceClick, KeyDown ''ArrowDown'', KeyDown ''ArrowDown'',
           KeyDown ''Enter''] (init False) =
       Inr ((init False)\<lparr>options := internalABC, activeIndex := 1, selectedIndex := 1,
                          curValue := ''b'',
                          dispatched := [\<lparr>eventType = ''vsc-change'',
                                          detail = SingleDetail 1 ''b''\<rparr>]\<rparr>)"
proof (intro conjI impI)
  assume "showDropdown s \<and> \<not> multiple s
      \<and> (activeIndex s = selectedIndex s
          \<or> (0 \<le> activeIndex s \<and> activeIndex s < int (length (options s))))"
  then show "step (KeyDown ''Enter'') s =
     Inr (if activeIndex s \<noteq> selectedIndex s
          then s\<lparr>showDropdown := False, ariaExpanded := ''false'',
                 windowClickListener := False, selectedIndex := activeIndex s,
                 curValue := optValue (options s ! nat (activeIndex s)),
                 dispatched := dispatched s @
                   [\<lparr>eventType = ''vsc-change'',
                     detail = SingleDetail (activeIndex s)
                                (optValue (options s ! nat (activeIndex s)))\<rparr>]\<rparr>
          else s\<lparr>showDropdown := False, ariaExpanded := ''false'',
                 windowClickListener := False\<rparr>)"
    by (auto simp add: key_defs)
next
  show "run [SetOptions optionsABC, FaceClick, KeyDown ''ArrowDown'', KeyDown ''ArrowDown'',
           KeyDown ''Enter''] (init False) =
       Inr ((init False)\<lparr>options := internalABC, activeIndex := 1, selectedIndex := 1,
                          curValue := ''b'',
                          dispatched := [\<lparr>eventType = ''vsc-change'',
                                          detail = SingleDetail 1 ''b''\<rparr>]\<rparr>)"
    by (simp add: key_defs example_defs onFaceClick_def)
qed

theorem enter_commits_single_select_witness:
  "showDropdown (openABC False 1) \<and> \<not> multiple (openABC False 1)
   \<and> 0 \<le> activeIndex (openABC False 1)
   \<and> activeIndex (openABC False 1) < int (length (options (openABC False 1)))
   \<and> activeIndex (openABC False 1) \<noteq> selectedIndex (openABC False 1)
   \<and> step (KeyDown ''Enter'') (openABC False 1) =
       Inr ((init False)\<lparr>options := internalABC, activeIndex := 1, selectedIndex := 1,
                          curValue := ''b'',
                          dispatched := [\<lparr>eventType = ''vsc-change'',
                                          detail = SingleDetail 1 ''b''\<rparr>]\<rparr>)"
  using enter_commits_single_select [of "openABC False 1"]
  by (simp add: example_defs)

text \<open>
  In every state, Enter on an open single-select dropdown leaves the dropdown closed
  and the listener removed, also when the handler then throws.
\<close>

lemma enter_closes_single_select:
  assumes "showDropdown s" and "\<not> multiple s"
  shows "\<not> showDropdown (stateOf (step (KeyDown ''Enter'') s))
       \<and> \<not> windowClickListener (stateOf (step (KeyDown ''Enter'') s))
       \<and> ariaExpanded (stateOf (step (KeyDown ''Enter'') s)) = ''false''"
  using assms by (simp add: key_defs stateOf_def split: option.splits)

text \<open>
  Claim C1. In single-select mode, Enter while the dropdown is open closes the
  dropdown, and if the Active Index differs from the selected index it commits: the
  selected index becomes the Active Index, the stored value becomes the value of the
  option record at that index, and a change notification is dispatched. The handler
  reads \<open>this._options[this._selectedIndex].value\<close> without the test that
  \<open>_renderDescription\<close> makes before the same read. Two options are slotted, the
  dropdown is opened by a face click, ArrowDown is pressed twice, the second option
  is removed from the slot, and Enter is pressed: the handler closes the dropdown,
  overwrites the selected index with the Active Index 1, which is no position of the
  one remaining record, and throws a \<open>TypeError\<close>; no value is stored and no event
  is dispatched.
\<close>

theorem enter_throws_on_stale_active_index:
  "run [SlotChange [nodeA, nodeB False], FaceClick, KeyDown ''ArrowDown'',
        KeyDown ''ArrowDown'', SlotChange [nodeA], KeyDown ''Enter''] (init False) =
     Inl (TypeError,
          (init False)\<lparr>options := [\<lparr>label = ''A'', optValue = ''a'', description = [],
                                     selected = False, index = 0\<rparr>],
                        activeIndex := 1, selectedIndex := 1\<rparr>)"
  by (simp add: key_defs example_defs onFaceClick_def onSlotChange_def
      addOptionsFromSlottedElements_def)

section \<open>The outside-click listener\<close>

text \<open>
  Claim C2. Every path that closes the dropdown through \<open>_toggleDropdown(false)\<close>
  removes the listener, but the Escape branch of \<open>_onComponentKeyDown\<close> assigns
  \<open>_showDropdown = false\<close> directly: after a face click and Escape the dropdown is
  closed, the listener is still registered on \<open>window\<close> and \<open>aria-expanded\<close> is still
  \<open>true\<close>.
\<close>

theorem escape_leaves_listener:
  "run [FaceClick, KeyDown ''Escape''] (init False) =
     Inr ((init False)\<lparr>showDropdown := False, ariaExpanded := ''true'',
                        windowClickListener := True\<rparr>)"
  by (simp add: key_defs onFaceClick_def init_def)

section \<open>Keys and the event\<close>

text \<open>
  Claim C4, as amended. For the keys Space, ArrowUp, ArrowDown and Escape the key
  handler calls \<open>stopPropagation\<close> and \<open>preventDefault\<close> on the event, in every state
  and whatever the handler then does; for Enter it calls neither and the event is
  left as it came.
\<close>

theorem key_handler_stops_four_keys:
  "fst (onComponentKeyDown (e\<lparr>key := '' ''\<rparr>) s) =
     e\<lparr>key := '' '', propagationStopped := True, defaultPrevented := True\<rparr>
   \<and> fst (onComponentKeyDown (e\<lparr>key := ''ArrowUp''\<rparr>) s) =
     e\<lparr>key := ''ArrowUp'', propagationStopped := True, defaultPrevented := True\<rparr>
   \<and> fst (onComponentKeyDown (e\<lparr>key := ''ArrowDown''\<rparr>) s) =
     e\<lparr>key := ''ArrowDown'', propagationStopped := True, defaultPrevented := True\<rparr>
   \<and> fst (onComponentKeyDown (e\<lparr>key := ''Escape''\<rparr>) s) =
     e\<lparr>key := ''Escape'', propagationStopped := True, defaultPrevented := True\<rparr>
   \<and> fst (onComponentKeyDown (e\<lparr>key := ''Enter''\<rparr>) s) = e\<lparr>key := ''Enter''\<rparr>"
  by (simp add: onComponentKeyDown_def Let_def)

theorem key_handler_stops_four_keys_witness:
  "fst (onComponentKeyDown (keydown ''Escape'') (openABC False 1)) =
     \<lparr>key = ''Escape'', propagationStopped = True, defaultPrevented = True\<rparr>
   \<and> fst (onComponentKeyDown (keydown '' '') (init True)) =
     \<lparr>key = '' '', propagationStopped = True, defaultPrevented = True\<rparr>"
  using key_handler_stops_four_keys [of "keydown []" "openABC False 1"]
    key_handler_stops_four_keys [of "keydown []" "init True"]
  by (simp add: keydown_def)

theorem enter_not_stopped:
  "\<not> propagationStopped (fst (onComponentKeyDown (keydown ''Enter'') (init False)))
   \<and> \<not> defaultPrevented (fst (onComponentKeyDown (keydown ''Enter'') (init False)))"
  by (simp add: onComponentKeyDown_def keydown_def Let_def)

section \<open>Opening the dropdown\<close>

text \<open>
  Claim C5, as amended. From the closed state a face click, Enter and Space each open
  the dropdown. In single-select mode each sets the Active Index to the selected
  index. In multi-select mode a face click resets the Active Index to -1, Enter sets
  it to 0, and Space leaves it as it was.
\<close>

theorem opening_sets_active_index:
  assumes "\<not> showDropdown s"
  shows "(\<not> multiple s \<longrightarrow>
            step FaceClick s =
              Inr (s\<lparr>showDropdown := True, ariaExpanded := ''true'',
                     activeIndex := selectedIndex s, windowClickListener := True\<rparr>)
          \<and> step (KeyDown ''Enter'') s =
              Inr (s\<lparr>showDropdown := True, ariaExpanded := ''true'',
                     activeIndex := selectedIndex s, windowClickListener := True\<rparr>)
          \<and> step (KeyDown '' '') s =
              Inr (s\<lparr>showDropdown := True, ariaExpanded := ''true'',
                     activeIndex := selectedIndex s, windowClickListener := True\<rparr>))
       \<and> (multiple s \<longrightarrow>
            step FaceClick s =
              Inr (s\<lparr>showDropdown := True, ariaExpanded := ''true'',
                     windowClickListener := True, activeIndex := - 1\<rparr>)
          \<and> step (KeyDown ''Enter'') s =
              Inr (s\<lparr>showDropdown := True, ariaExpanded := ''true'',
                     windowClickListener := True, activeIndex := 0\<rparr>)
          \<and> step (KeyDown '' '') s =
              Inr (s\<lparr>showDropdown := True, ariaExpanded := ''true'',
                     windowClickListener := True\<rparr>))"
  using assms by (simp add: key_defs onFaceClick_def)

theorem opening_sets_active_index_witness:
  "\<not> showDropdown ((init False)\<lparr>selectedIndex := 2\<rparr>)
   \<and> \<not> multiple ((init False)\<lparr>selectedIndex := 2\<rparr>)
   \<and> activeIndex (stateOf (step (KeyDown '' '') ((init False)\<lparr>selectedIndex := 2\<rparr>))) = 2
   \<and> \<not> showDropdown ((init True)\<lparr>activeIndex := 2\<rparr>)
   \<and> multiple ((init True)\<lparr>activeIndex := 2\<rparr>)
   \<and> activeIndex (stateOf (step FaceClick ((init True)\<lparr>activeIndex := 2\<rparr>))) = - 1
   \<and> activeIndex (stateOf (step (KeyDown '' '') ((init True)\<lparr>activeIndex := 2\<rparr>))) = 2"
  using opening_sets_active_index [of "(init False)\<lparr>selectedIndex := 2\<rparr>"]
    opening_sets_active_index [of "(init True)\<lparr>activeIndex := 2\<rparr>"]
  by (simp add: init_def stateOf_def)

text \<open>
  The claim as stated fails in multi-select mode: Enter on the closed widget opens it
  with Active Index 0, not -1.
\<close>

theorem enter_opens_multi_at_zero:
  "step (KeyDown ''Enter'') (init True) =
     Inr ((init True)\<lparr>showDropdown := True, ariaExpanded := ''true'',
                       windowClickListener := True, activeIndex := 0\<rparr>)
   \<and> activeIndex (stateOf (step (KeyDown ''Enter'') (init True))) \<noteq> - 1"
  by (simp add: key_defs init_def stateOf_def)

section \<open>Arrow keys\<close>

text \<open>
  Claim C7. While the dropdown is open over \<open>n\<close> options, ArrowDown adds 1 to the
  Active Index exactly when it is below \<open>n - 1\<close> and otherwise changes nothing, and
  ArrowUp subtracts 1 exactly when it is above 0 and otherwise changes nothing: there
  is no wraparound. Started at -1, \<open>k\<close> presses of ArrowDown leave the Active Index at
  \<open>min k n - 1\<close>; in particular after \<open>n\<close> presses it does not exceed \<open>n - 1\<close>.
\<close>

theorem arrows_move_without_wraparound:
  assumes "showDropdown s"
  shows "step (KeyDown ''ArrowDown'') s =
           Inr (if activeIndex s < int (length (options s)) - 1
                then s\<lparr>activeIndex := activeIndex s + 1\<rparr> else s)
       \<and> step (KeyDown ''ArrowUp'') s =
           Inr (if activeIndex s > 0 then s\<lparr>activeIndex := activeIndex s - 1\<rparr> else s)
       \<and> (activeIndex s = - 1 \<longrightarrow>
            run (replicate k (KeyDown ''ArrowDown'')) s =
              Inr (s\<lparr>activeIndex := min (int k) (int (length (options s))) - 1\<rparr>)
          \<and> activeIndex (stateOf (run (replicate (length (options s)) (KeyDown ''ArrowDown'')) s))
              \<le> int (length (options s)) - 1)"
proof (intro conjI impI)
  show "step (KeyDown ''ArrowDown'') s =
           Inr (if activeIndex s < int (length (options s)) - 1
                then s\<lparr>activeIndex := activeIndex s + 1\<rparr> else s)"
    using assms by (rule arrow_down_step)
  show "step (KeyDown ''ArrowUp'') s =
           Inr (if activeIndex s > 0 then s\<lparr>activeIndex := activeIndex s - 1\<rparr> else s)"
    using assms by (simp add: key_defs)
next
  assume a: "activeIndex s = - 1"
  have eq: "s\<lparr>activeIndex := - 1\<rparr> = s" using a by simp
  show r: "run (replicate k (KeyDown ''ArrowDown'')) s =
              Inr (s\<lparr>activeIndex := min (int k) (int (length (options s))) - 1\<rparr>)" for k
    using arrow_down_run [OF assms, of k] a eq
    by (cases "options s = []") (auto simp: min_def)
  show "activeIndex (stateOf (run (replicate (length (options s)) (KeyDown ''ArrowDown'')) s))
              \<le> int (length (options s)) - 1"
    by (simp add: r stateOf_def)
qed

theorem arrows_move_without_wraparound_witness:
  "showDropdown (openABC False (- 1)) \<and> activeIndex (openABC False (- 1)) = - 1
   \<and> step (KeyDown ''ArrowUp'') (openABC False (- 1)) = Inr (openABC False (- 1))
   \<and> step (KeyDown ''ArrowDown'') (openABC False (- 1)) = Inr (openABC False 0)
   \<and> run (replicate 5 (KeyDown ''ArrowDown'')) (openABC False (- 1)) = Inr (openABC False 2)"
  using arrows_move_without_wraparound [of "openABC False (- 1)" 5]
  by (simp add: example_defs)

section \<open>The filter property\<close>

text \<open>
  Claim C8. Assigning the \<open>filter\<close> property never throws. A value among
  \<open>contains\<close>, \<open>fuzzy\<close>, \<open>startsWith\<close>, \<open>startsWithPerTerm\<close> becomes the search method
  and nothing is written to the console; any other string makes the method \<open>fuzzy\<close>
  and writes one warning to the console.
\<close>

theorem filter_setter_fallback:
  "step (SetFilter val) s =
     Inr (if val = ''contains'' \<or> val = ''fuzzy'' \<or> val = ''startsWith''
             \<or> val = ''startsWithPerTerm''
          then s\<lparr>filterMethod := val\<rparr>
          else s\<lparr>filterMethod := ''fuzzy'',
                 consoleWarnings := consoleWarnings s @ [invalidFilterWarning val]\<rparr>)"
  by (simp add: setFilter_def validValues_def)

theorem filter_setter_fallback_witness:
  "step (SetFilter ''bogus'') (init False) =
     Inr ((init False)\<lparr>consoleWarnings := [invalidFilterWarning ''bogus'']\<rparr>)
   \<and> step (SetFilter ''startsWith'') (init False) =
     Inr ((init False)\<lparr>filterMethod := ''startsWith''\<rparr>)"
  using filter_setter_fallback [of "''bogus''" "init False"]
    filter_setter_fallback [of "''startsWith''" "init False"]
  by (simp add: init_def)

section \<open>Space\<close>




text \<open>
  Space on an open multi-select dropdown whose Active Index \<open>i\<close> is the position of
  an existing option record (\<open>0 \<le> i < n\<close>): the record is replaced by itself with
  the selected flag negated, and \<open>_selectedIndexes\<close> becomes the indexes of the
  records whose flag is then set, in list order; every other record, every other
  field of the state, the Active Index and the dropdown visibility are unchanged.
  Where each record's index is its position, that sequence is the ascending sequence
  of their positions. With the Active Index -1 and the dropdown open, Space changes
  nothing.
\<close>

theorem space_flips_active_option:
  "(multiple s \<and> showDropdown s \<and> 0 \<le> activeIndex s
      \<and> activeIndex s < int (length (options s))
    \<longrightarrow> step (KeyDown '' '') s =
           Inr (s\<lparr>options := (options s)[nat (activeIndex s) :=
                     (options s ! nat (activeIndex s))
                       \<lparr>selected := \<not> selected (options s ! nat (activeIndex s))\<rparr>],
                  selectedIndexes := map index (filter selected
                    ((options s)[nat (activeIndex s) :=
                     (options s ! nat (activeIndex s))
                       \<lparr>selected := \<not> selected (options s ! nat (activeIndex s))\<rparr>]))\<rparr>)
       \<and> (wellIndexed (options s) \<longrightarrow>
            selectedIndexes (stateOf (step (KeyDown '' '') s)) =
              selectedPositions (options (stateOf (step (KeyDown '' '') s)))
          \<and> sorted (selectedIndexes (stateOf (step (KeyDown '' '') s)))
          \<and> distinct (selectedIndexes (stateOf (step (KeyDown '' '') s)))))
   \<and> (multiple s \<and> showDropdown s \<and> activeIndex s = - 1
        \<longrightarrow> step (KeyDown '' '') s = Inr s)"
proof (intro conjI impI)
  let ?i = "nat (activeIndex s)"
  let ?opts = "(options s)[?i := (options s ! ?i)\<lparr>selected := \<not> selected (options s ! ?i)\<rparr>]"
  assume a: "multiple s \<and> showDropdown s \<and> 0 \<le> activeIndex s
      \<and> activeIndex s < int (length (options s))"
  then show st: "step (KeyDown '' '') s =
    Inr (s\<lparr>options := ?opts, selectedIndexes := map index (filter selected ?opts)\<rparr>)"
    by (simp add: key_defs pushSelected_eq)
  assume w: "wellIndexed (options s)"
  have sel: "map index (filter selected ?opts) = selectedPositions ?opts"
    using w by (rule wellIndexed_selected [OF wellIndexed_update])
  show "selectedIndexes (stateOf (step (KeyDown '' '') s)) =
              selectedPositions (options (stateOf (step (KeyDown '' '') s)))"
    unfolding st by (simp add: sel stateOf_def)
  show "sorted (selectedIndexes (stateOf (step (KeyDown '' '') s)))"
    using selectedPositions_sorted [of ?opts] unfolding st by (simp add: sel stateOf_def)
  show "distinct (selectedIndexes (stateOf (step (KeyDown '' '') s)))"
    using selectedPositions_sorted [of ?opts] unfolding st by (simp add: sel stateOf_def)
next
  assume "multiple s \<and> showDropdown s \<and> activeIndex s = - 1"
  then show "step (KeyDown '' '') s = Inr s"
    by (simp add: key_defs)
qed

theorem space_flips_active_option_witness:
  "multiple (openABC True 1) \<and> showDropdown (openABC True 1)
   \<and> 0 \<le> activeIndex (openABC True 1)
   \<and> activeIndex (openABC True 1) < int (length (options (openABC True 1)))
   \<and> wellIndexed (options (openABC True 1))
   \<and> step (KeyDown '' '') (openABC True 1) =
       Inr ((openABC True 1)
             \<lparr>options := [\<lparr>label = ''A'', optValue = ''a'', description = [],
                            selected = False, index = 0\<rparr>,
                          \<lparr>label = ''B'', optValue = ''b'', description = [],
                            selected = True, index = 1\<rparr>,
                          \<lparr>label = ''C'', optValue = ''c'', description = [],
                            selected = False, index = 2\<rparr>],
              selectedIndexes := [1]\<rparr>)
   \<and> multiple (openABC True (- 1)) \<and> showDropdown (openABC True (- 1))
   \<and> activeIndex (openABC True (- 1)) = - 1
   \<and> step (KeyDown '' '') (openABC True (- 1)) = Inr (openABC True (- 1))"
  using space_flips_active_option [of "openABC True 1"]
    space_flips_active_option [of "openABC True (- 1)"]
  by (simp add: example_defs wellIndexed_def upt_rec)

text \<open>
  Claim C10. In multi-select mode, Space while the dropdown is open with Active Index
  \<open>i \<ge> 0\<close> flips only the selected flag of the option record at index \<open>i\<close> and
  recomputes \<open>_selectedIndexes\<close>. The handler tests \<open>_activeIndex > -1\<close> only, and
  destructures \<open>this._options[this._activeIndex]\<close> without the test that
  \<open>_renderDescription\<close> makes before the same read. Enter on a closed multi-select
  with no options opens it with Active Index 0, and Space then throws a \<open>TypeError\<close>
  instead of toggling or leaving the state alone.
\<close>

theorem space_throws_past_end:
  "run [KeyDown ''Enter'', KeyDown '' ''] (init True) =
     Inl (TypeError,
          (init True)\<lparr>showDropdown := True, ariaExpanded := ''true'',
                       windowClickListener := True, activeIndex := 0\<rparr>)"
  by (simp add: key_defs init_def)

section \<open>Ingestion and the Selection State\<close>

lemma index_nodeOptions:
  "map index (nodeOptions nodes i) = map (\<lambda>k. i + int k) [0..<length (nodeOptions nodes i)]"
proof (induction nodes i rule: nodeOptions.induct)
  case (3 innerText elValue hasValue descr sel nodes i)
  have "[0..<Suc (length (nodeOptions nodes (i + 1)))]
        = 0 # map Suc [0..<length (nodeOptions nodes (i + 1))]"
    by (simp add: upt_conv_Cons map_Suc_upt del: upt_Suc)
  then show ?case using 3 by (simp add: comp_def add.assoc del: upt_Suc)
qed simp_all

lemma wellIndexed_nodeOptions: "wellIndexed (nodeOptions nodes 0)"
  using index_nodeOptions [of nodes 0] by (simp add: wellIndexed_def)

lemma forEachNode_eq:
  "forEachNode nodes (opts, int (length opts), stat) =
     (opts @ nodeOptions nodes (int (length opts)),
      int (length (opts @ nodeOptions nodes (int (length opts)))),
      stat\<lparr>statSelectedIndexes := statSelectedIndexes stat
               @ map index (filter selected (nodeOptions nodes (int (length opts)))),
            statValues := statValues stat
               @ map optValue (filter selected (nodeOptions nodes (int (length opts))))\<rparr>)"
proof (induction nodes arbitrary: opts stat)
  case Nil
  then show ?case by simp
next
  case (Cons node nodes)
  show ?case
  proof (cases node)
    case OtherNode
    then show ?thesis using Cons.IH [of opts stat] by simp
  next
    case (VscodeOptionElement innerText elValue hasValue descr sel)
    let ?op = "\<lparr>label = innerText, optValue = (if hasValue then elValue else innerText),
                description = descr, selected = sel, index = int (length opts)\<rparr>"
    have len: "int (length (opts @ [?op])) = int (length opts) + 1" by simp
    show ?thesis
      using Cons.IH [of "opts @ [?op]"] VscodeOptionElement
      by (simp add: Let_def len del: of_nat_Suc of_nat_add length_append)
         (simp add: add.commute)
  qed
qed

lemma onSlotChange_eq:
  "onSlotChange nodes s =
     (if selectedPositions (nodeOptions nodes 0) \<noteq> []
      then s\<lparr>options := nodeOptions nodes 0,
             selectedIndex := hd (selectedPositions (nodeOptions nodes 0)),
             selectedIndexes := selectedPositions (nodeOptions nodes 0)\<rparr>
      else s\<lparr>options := nodeOptions nodes 0\<rparr>)"
  using forEachNode_eq [of nodes "[]" "\<lparr>statSelectedIndexes = [], statValues = []\<rparr>"]
  by (simp add: onSlotChange_def addOptionsFromSlottedElements_def
      wellIndexed_selected [OF wellIndexed_nodeOptions] hd_conv_nth)

lemma selectedPositions_bound:
  "i \<in> set (selectedPositions opts) \<Longrightarrow> 0 \<le> i \<and> i < int (length opts)"
  by (auto simp: selectedPositions_def)

text \<open>
  Claim C3, as amended. Re-ingestion replaces the option list by the records of the
  slotted option elements, in order, and dispatches nothing. If at least one of them is
  selected, the selected index becomes the position of the first selected record and
  \<open>_selectedIndexes\<close> the ascending sequence of the positions of all selected records,
  so every index of the Selection State is the position of an existing record. If
  none is selected, the Selection State is left exactly as it was.
\<close>

theorem slot_change_selection:
  "options (onSlotChange nodes s) = nodeOptions nodes 0
   \<and> dispatched (onSlotChange nodes s) = dispatched s
   \<and> (selectedPositions (nodeOptions nodes 0) \<noteq> [] \<longrightarrow>
        selectedIndex (onSlotChange nodes s) = hd (selectedPositions (nodeOptions nodes 0))
      \<and> selectedIndexes (onSlotChange nodes s) = selectedPositions (nodeOptions nodes 0)
      \<and> 0 \<le> selectedIndex (onSlotChange nodes s)
      \<and> selectedIndex (onSlotChange nodes s) < int (length (options (onSlotChange nodes s)))
      \<and> (\<forall>i \<in> set (selectedIndexes (onSlotChange nodes s)).
            0 \<le> i \<and> i < int (length (options (onSlotChange nodes s)))))
   \<and> (selectedPositions (nodeOptions nodes 0) = [] \<longrightarrow>
        selectedIndex (onSlotChange nodes s) = selectedIndex s
      \<and> selectedIndexes (onSlotChange nodes s) = selectedIndexes s)"
proof -
  have hd: "selectedPositions opts \<noteq> [] \<Longrightarrow>
     0 \<le> hd (selectedPositions opts) \<and> hd (selectedPositions opts) < int (length opts)" for opts
    using selectedPositions_bound [of "hd (selectedPositions opts)" opts] by simp
  show ?thesis
    using hd [of "nodeOptions nodes 0"]
    by (auto simp: onSlotChange_eq dest: selectedPositions_bound)
qed

theorem slot_change_selection_witness:
  "selectedPositions (nodeOptions [nodeA, OtherNode, nodeB True] 0) = [1]
   \<and> selectedIndex (onSlotChange [nodeA, OtherNode, nodeB True] (init False)) = 1
   \<and> selectedIndexes (onSlotChange [nodeA, OtherNode, nodeB True] (init False)) = [1]
   \<and> length (options (onSlotChange [nodeA, OtherNode, nodeB True] (init False))) = 2
   \<and> selectedPositions (nodeOptions [nodeA] 0) = []
   \<and> selectedIndex (onSlotChange [nodeA] ((init False)\<lparr>selectedIndex := 1\<rparr>)) = 1"
  using slot_change_selection [of "[nodeA, OtherNode, nodeB True]" "init False"]
    slot_change_selection [of "[nodeA]" "(init False)\<lparr>selectedIndex := 1\<rparr>"]
  by (simp add: example_defs selectedPositions_def upt_rec)

text \<open>
  The claim as stated fails: after the selected second child is removed, the selected
  index is still 1 over a list of one record.
\<close>

theorem stale_selection_after_removal:
  "run [SlotChange [nodeA, nodeB True], SlotChange [nodeA]] (init False) =
     Inr ((init False)\<lparr>options := [\<lparr>label = ''A'', optValue = ''a'', description = [],
                                     selected = False, index = 0\<rparr>],
                        selectedIndex := 1, selectedIndexes := [1]\<rparr>)
   \<and> \<not> selectionValid (stateOf (run [SlotChange [nodeA, nodeB True], SlotChange [nodeA]]
                                   (init False)))
   \<and> \<not> selectionValid (stateOf (run [SlotChange [nodeA, nodeB True], SlotChange [nodeA]]
                                   (init True)))"
  by (simp add: onSlotChange_def addOptionsFromSlottedElements_def example_defs
      selectionValid_def stateOf_def Let_def)

section \<open>The change notification\<close>

lemma findIndexFrom_none:
  "0 \<le> i \<Longrightarrow> (findIndexFrom P xs i = - 1) = (\<forall>x \<in> set xs. \<not> P x)"
  by (induction xs arbitrary: i) auto

lemma findIndex_none: "(findIndex P xs = - 1) = (\<forall>x \<in> set xs. \<not> P x)"
  by (simp add: findIndex_def findIndexFrom_none)

lemma toggleDropdown_dispatched: "dispatched (toggleDropdown v s) = dispatched s"
  by (simp add: toggleDropdown_def Let_def)

lemma onSpaceKeyDown_dispatched: "dispatched (stateOf (onSpaceKeyDown s)) = dispatched s"
  by (simp add: onSpaceKeyDown_def stateOf_def toggleDropdown_dispatched jsIndex_def Let_def)

lemma onEnterKeyDown_dispatched:
  "dispatched (stateOf (onEnterKeyDown s)) \<noteq> dispatched s \<Longrightarrow>
     showDropdown s \<and> \<not> multiple s \<and> selectedIndex s \<noteq> activeIndex s
     \<and> selectedIndex (stateOf (onEnterKeyDown s)) = activeIndex s
     \<and> dispatched (stateOf (onEnterKeyDown s)) = dispatched s @
         [\<lparr>eventType = ''vsc-change'',
           detail = SingleDetail (activeIndex s) (curValue (stateOf (onEnterKeyDown s)))\<rparr>]"
  by (simp add: onEnterKeyDown_def stateOf_def toggleDropdown_def dispatchChangeEvent_def
      jsIndex_def thenDo_def Let_def split: if_splits)

lemma keydown_cases:
  "step (KeyDown k) s =
     (if k = ''Enter'' then onEnterKeyDown s
      else if k = '' '' then onSpaceKeyDown s
      else if k = ''Escape'' then Inr (s\<lparr>showDropdown := False\<rparr>)
      else if k = ''ArrowUp'' then Inr (onArrowUpKeyDown s)
      else if k = ''ArrowDown'' then Inr (onArrowDownKeyDown s)
      else Inr s)"
  by (cases "onEnterKeyDown s"; cases "onSpaceKeyDown s")
     (simp_all add: onComponentKeyDown_def keydown_def thenDo_def Let_def)

lemma step_dispatched:
  assumes "dispatched (stateOf (step e s)) \<noteq> dispatched s"
  shows "e = KeyDown ''Enter'' \<and> showDropdown s \<and> \<not> multiple s
     \<and> selectedIndex s \<noteq> activeIndex s
     \<and> selectedIndex (stateOf (step e s)) = activeIndex s
     \<and> dispatched (stateOf (step e s)) = dispatched s @
         [\<lparr>eventType = ''vsc-change'',
           detail = SingleDetail (activeIndex s) (curValue (stateOf (step e s)))\<rparr>]"
proof (cases e)
  case (KeyDown k)
  show ?thesis
  proof (cases "k = ''Enter''")
    case True
    then show ?thesis
      using assms KeyDown onEnterKeyDown_dispatched [of s]
      by (simp add: keydown_cases del: step.simps)
  next
    case False
    have "dispatched (stateOf (step (KeyDown k) s)) = dispatched s"
      using False onSpaceKeyDown_dispatched [of s]
      by (simp add: keydown_cases onArrowUpKeyDown_def onArrowDownKeyDown_def stateOf_def
          del: step.simps)
    then show ?thesis using assms KeyDown by simp
  qed
next
  case FaceClick
  then show ?thesis using assms
    by (simp add: stateOf_def onFaceClick_def toggleDropdown_dispatched Let_def
        split: if_splits)
next
  case (WindowClick path)
  then show ?thesis using assms
    by (simp add: stateOf_def onClickOutside_def toggleDropdown_dispatched Let_def
        split: if_splits)
next
  case (OptionMouseOver m i)
  then show ?thesis using assms
    by (simp add: stateOf_def onOptionMouseOver_def split: if_splits)
next
  case (SlotChange nodes)
  then show ?thesis using assms
    by (simp add: stateOf_def onSlotChange_eq split: if_splits)
next
  case (SetOptions opts)
  then show ?thesis using assms
    by (simp add: stateOf_def setOptions_def split: if_splits)
next
  case (SetFilter val)
  then show ?thesis using assms
    by (simp add: stateOf_def setFilter_def split: if_splits)
next
  case ComboboxButtonClick
  then show ?thesis using assms
    by (simp add: stateOf_def onComboboxButtonClick_def toggleComboboxDropdown_def
        toggleDropdown_dispatched Let_def split: if_splits)
next
  case (ComboboxButtonKeyDown k)
  then show ?thesis using assms
    by (simp add: stateOf_def onComboboxButtonKeyDown_def toggleComboboxDropdown_def
        toggleDropdown_dispatched Let_def split: if_splits)
next
  case (ComboboxInputInput v)
  then show ?thesis using assms
    by (simp add: stateOf_def onComboboxInputInput_def toggleDropdown_dispatched
        split: if_splits)
next
  case Focus
  then show ?thesis using assms
    by (simp add: stateOf_def onComponentFocus_def split: if_splits)
next
  case Blur
  then show ?thesis using assms
    by (simp add: stateOf_def onComponentBlur_def split: if_splits)
qed

text \<open>
  Claim C6. Whatever the event and the state, if handling the event dispatches
  anything, then the event is Enter on an open single-select dropdown whose Active
  Index differs from the selected index, the selected index has become the Active
  Index, and exactly one \<open>vsc-change\<close> event carrying the new selected index and value
  was dispatched: no arrow key, mouse hover, opening or closing dispatches. Enter on
  an open multi-select dropdown only closes it; Escape only clears the visibility
  flag; a click outside the widget only closes the dropdown.
\<close>

theorem change_event_only_on_commit:
  "(dispatched (stateOf (step e s)) \<noteq> dispatched s \<longrightarrow>
      e = KeyDown ''Enter'' \<and> showDropdown s \<and> \<not> multiple s
      \<and> selectedIndex s \<noteq> activeIndex s
      \<and> selectedIndex (stateOf (step e s)) = activeIndex s
      \<and> dispatched (stateOf (step e s)) = dispatched s @
          [\<lparr>eventType = ''vsc-change'',
            detail = SingleDetail (activeIndex s) (curValue (stateOf (step e s)))\<rparr>])
   \<and> (multiple s \<and> showDropdown s \<longrightarrow>
        step (KeyDown ''Enter'') s =
          Inr (s\<lparr>showDropdown := False, ariaExpanded := ''false'',
                 windowClickListener := False\<rparr>))
   \<and> step (KeyDown ''Escape'') s = Inr (s\<lparr>showDropdown := False\<rparr>)
   \<and> (windowClickListener s \<and> ThisElement \<notin> set path \<longrightarrow>
        step (WindowClick path) s =
          Inr (s\<lparr>showDropdown := False, ariaExpanded := ''false'',
                 windowClickListener := False\<rparr>))"
proof (intro conjI impI)
  assume "dispatched (stateOf (step e s)) \<noteq> dispatched s"
  from step_dispatched [OF this]
  show "e = KeyDown ''Enter''" and "showDropdown s" and "\<not> multiple s"
    and "selectedIndex s \<noteq> activeIndex s"
    and "selectedIndex (stateOf (step e s)) = activeIndex s"
    and "dispatched (stateOf (step e s)) = dispatched s @
          [\<lparr>eventType = ''vsc-change'',
            detail = SingleDetail (activeIndex s) (curValue (stateOf (step e s)))\<rparr>]"
    by blast+
next
  assume "multiple s \<and> showDropdown s"
  then show "step (KeyDown ''Enter'') s =
          Inr (s\<lparr>showDropdown := False, ariaExpanded := ''false'',
                 windowClickListener := False\<rparr>)"
    by (simp add: key_defs)
next
  show "step (KeyDown ''Escape'') s = Inr (s\<lparr>showDropdown := False\<rparr>)"
    by (simp add: keydown_cases del: step.simps)
next
  assume "windowClickListener s \<and> ThisElement \<notin> set path"
  then show "step (WindowClick path) s =
          Inr (s\<lparr>showDropdown := False, ariaExpanded := ''false'',
                 windowClickListener := False\<rparr>)"
    by (simp add: onClickOutside_def findIndex_none toggleDropdown_def Let_def)
qed

theorem change_event_only_on_commit_witness:
  "dispatched (stateOf (step (KeyDown ''Enter'') (openABC False 1)))
     \<noteq> dispatched (openABC False 1)
   \<and> selectedIndex (stateOf (step (KeyDown ''Enter'') (openABC False 1))) = 1
   \<and> multiple (openABC True 1) \<and> showDropdown (openABC True 1)
   \<and> windowClickListener (openABC True 1) \<and> ThisElement \<notin> set [OtherTarget 0]
   \<and> step (KeyDown ''Enter'') (openABC True 1) =
       Inr ((init True)\<lparr>options := internalABC, activeIndex := 1\<rparr>)
   \<and> step (WindowClick [OtherTarget 0]) (openABC True 1) =
       Inr ((init True)\<lparr>options := internalABC, activeIndex := 1\<rparr>)"
  using change_event_only_on_commit [of "KeyDown ''Enter''" "openABC False 1"]
    change_event_only_on_commit [of "KeyDown ''Enter''" "openABC True 1" "[OtherTarget 0]"]
  by (simp add: example_defs key_defs stateOf_def)

section \<open>Invariants of every run\<close>

lemma index_withIndex:
  "map index (withIndex opts i) = map (\<lambda>k. i + int k) [0..<length (withIndex opts i)]"
proof (induction opts i rule: withIndex.induct)
  case (2 op ops i)
  have "[0..<Suc (length (withIndex ops (i + 1)))]
        = 0 # map Suc [0..<length (withIndex ops (i + 1))]"
    by (simp add: upt_conv_Cons map_Suc_upt del: upt_Suc)
  then show ?case using 2 by (simp add: comp_def add.assoc del: upt_Suc)
qed simp

lemma wellIndexed_withIndex: "wellIndexed (withIndex opts 0)"
  using index_withIndex [of opts 0] by (simp add: wellIndexed_def)

lemma toggleDropdown_options: "options (toggleDropdown v s) = options s"
  by (simp add: toggleDropdown_def Let_def)

lemma step_wellIndexed:
  assumes "wellIndexed (options s)"
  shows "wellIndexed (options (stateOf (step e s)))"
proof (cases e)
  case (KeyDown k)
  have enter: "options (stateOf (onEnterKeyDown s)) = options s"
    by (simp add: onEnterKeyDown_def stateOf_def toggleDropdown_def dispatchChangeEvent_def
        jsIndex_def thenDo_def Let_def)
  have space: "wellIndexed (options (stateOf (onSpaceKeyDown s)))"
    using assms wellIndexed_update [OF assms]
    by (simp add: onSpaceKeyDown_def stateOf_def toggleDropdown_options jsIndex_def Let_def)
  show ?thesis
    using assms KeyDown enter space
    by (simp add: keydown_cases onArrowUpKeyDown_def onArrowDownKeyDown_def stateOf_def
        del: step.simps)
next
  case FaceClick
  then show ?thesis using assms
    by (simp add: stateOf_def onFaceClick_def toggleDropdown_options Let_def)
next
  case (WindowClick path)
  then show ?thesis using assms
    by (simp add: stateOf_def onClickOutside_def toggleDropdown_options Let_def)
next
  case (OptionMouseOver m i)
  then show ?thesis using assms by (simp add: stateOf_def onOptionMouseOver_def)
next
  case (SlotChange nodes)
  then show ?thesis
    by (simp add: stateOf_def onSlotChange_eq wellIndexed_nodeOptions)
next
  case (SetOptions opts)
  then show ?thesis by (simp add: stateOf_def setOptions_def wellIndexed_withIndex)
next
  case (SetFilter val)
  then show ?thesis using assms by (simp add: stateOf_def setFilter_def)
next
  case ComboboxButtonClick
  then show ?thesis using assms
    by (simp add: stateOf_def onComboboxButtonClick_def toggleComboboxDropdown_def
        toggleDropdown_options Let_def)
next
  case (ComboboxButtonKeyDown k)
  then show ?thesis using assms
    by (simp add: stateOf_def onComboboxButtonKeyDown_def toggleComboboxDropdown_def
        toggleDropdown_options Let_def)
next
  case (ComboboxInputInput v)
  then show ?thesis using assms
    by (simp add: stateOf_def onComboboxInputInput_def toggleDropdown_options)
next
  case Focus
  then show ?thesis using assms by (simp add: stateOf_def onComponentFocus_def)
next
  case Blur
  then show ?thesis using assms by (simp add: stateOf_def onComponentBlur_def)
qed

lemma run_Cons_stateOf:
  "stateOf (run (e # es) s) =
     (case step e s of Inl x \<Rightarrow> snd x | Inr s' \<Rightarrow> stateOf (run es s'))"
  by (simp add: stateOf_def split: sum.splits)

text \<open>
  In every state a run reaches from the initial state, also the state an exception
  leaves behind, the index of every option record is its position in the list.
\<close>

theorem run_wellIndexed:
  "wellIndexed (options (stateOf (run evs (init m))))"
proof -
  have "wellIndexed (options s) \<Longrightarrow> wellIndexed (options (stateOf (run evs s)))" for s
  proof (induction evs arbitrary: s)
    case Nil
    then show ?case by (simp add: stateOf_def)
  next
    case (Cons e es)
    from step_wellIndexed [OF Cons.prems, of e] show ?case
      using Cons.IH by (cases "step e s") (simp_all add: run_Cons_stateOf stateOf_def del: step.simps)
  qed
  moreover have "wellIndexed (options (init m))"
    by (simp add: init_def wellIndexed_def)
  ultimately show ?thesis .
qed

text \<open>
  \<open>_toggleDropdown\<close> keeps the listener paired with the visibility: after it, the
  listener is registered exactly when the dropdown is shown.
\<close>

theorem toggleDropdown_pairs_listener:
  "showDropdown (toggleDropdown visible s) = visible
   \<and> windowClickListener (toggleDropdown visible s) = visible
   \<and> ariaExpanded (toggleDropdown visible s) = (if visible then ''true'' else ''false'')"
  by (simp add: toggleDropdown_def Let_def)

end
